theory Spec2Isabelle
  imports Main "HOL-Library.Sublist"
begin

section \<open>JavaScript strings\<close>

text \<open>
  A JavaScript string is a sequence of UTF-16 code units. A code unit is modelled as a
  natural number; the programs below only compare code units with constants, so no
  arithmetic on them is needed. \<open>str\<close> turns an ASCII literal into its code units.
\<close>

type_synonym jsstring = "nat list"

definition str :: "string \<Rightarrow> jsstring" where
  "str s = map of_char s"

abbreviation SLASH :: nat where "SLASH \<equiv> 47"
abbreviation DOT :: nat where "DOT \<equiv> 46"

text \<open>\<open>String.prototype.startsWith\<close> (with the default position 0).\<close>

definition startsWith :: "jsstring \<Rightarrow> jsstring \<Rightarrow> bool" where
  "startsWith s t = (take (length t) s = t)"

text \<open>
  \<open>String.prototype.trim\<close> removes leading and trailing white space and line
  terminators: U+0009..U+000D, U+0020, U+00A0, U+1680, U+2000..U+200A, U+2028, U+2029,
  U+202F, U+205F, U+3000 and U+FEFF.
\<close>

definition isWhiteSpace :: "nat \<Rightarrow> bool" where
  "isWhiteSpace c =
     ((9 \<le> c \<and> c \<le> 13) \<or> c = 32 \<or> c = 160 \<or> c = 5760 \<or> (8192 \<le> c \<and> c \<le> 8202)
      \<or> c = 8232 \<or> c = 8233 \<or> c = 8239 \<or> c = 8287 \<or> c = 12288 \<or> c = 65279)"

definition trim :: "jsstring \<Rightarrow> jsstring" where
  "trim s = rev (dropWhile isWhiteSpace (rev (dropWhile isWhiteSpace s)))"

text \<open>
  The regular expression \<^verbatim>\<open>/[<>:"|?*\x00-\x1f]/\<close> of both validators: \<open>test\<close> holds
  when some code unit is one of \<^verbatim>\<open>< > : " | ? *\<close> or lies in 0x00..0x1F.
\<close>

definition invalidChar :: "nat \<Rightarrow> bool" where
  "invalidChar c = (c = 60 \<or> c = 62 \<or> c = 58 \<or> c = 34 \<or> c = 124 \<or> c = 63 \<or> c = 42 \<or> c \<le> 31)"

definition invalidChars_test :: "jsstring \<Rightarrow> bool" where
  "invalidChars_test s = list_ex invalidChar s"

section \<open>The path module of Node.js (POSIX)\<close>

text \<open>
  The repository calls \<open>path.dirname\<close>, \<open>path.join\<close>, \<open>path.resolve\<close>,
  \<open>path.relative\<close> and \<open>path.isAbsolute\<close> of the Node.js standard library. They
  are not code of the repository; they are written here after the POSIX variant of Node's
  \<open>lib/path.js\<close>.
\<close>

fun splitOn :: "nat \<Rightarrow> jsstring \<Rightarrow> jsstring list" where
  "splitOn d [] = [[]]"
| "splitOn d (c # cs) =
     (if c = d then [] # splitOn d cs
      else (case splitOn d cs of [] \<Rightarrow> [[c]] | w # ws \<Rightarrow> (c # w) # ws))"

fun joinWith :: "nat \<Rightarrow> jsstring list \<Rightarrow> jsstring" where
  "joinWith d [] = []"
| "joinWith d [w] = w"
| "joinWith d (w # ws) = w @ d # joinWith d ws"

text \<open>
  \<open>normalizeString\<close>: the segments between slashes are read left to right; an empty
  segment and \<open>.\<close> are skipped; \<open>..\<close> removes the last kept segment unless there is
  none or it is \<open>..\<close> itself, in which case \<open>..\<close> is kept when \<open>allowAboveRoot\<close>
  and skipped otherwise. The kept segments are held in reverse order.
\<close>

fun normalizeStep :: "bool \<Rightarrow> jsstring list \<Rightarrow> jsstring \<Rightarrow> jsstring list" where
  "normalizeStep allowAboveRoot res seg =
     (if seg = [] \<or> seg = [DOT] then res
      else if seg = [DOT, DOT] then
        (case res of
           [] \<Rightarrow> (if allowAboveRoot then [[DOT, DOT]] else [])
         | r # rs \<Rightarrow> (if r = [DOT, DOT] then (if allowAboveRoot then [DOT, DOT] # r # rs else r # rs)
                     else rs))
      else seg # res)"

definition normalizeSegments :: "bool \<Rightarrow> jsstring \<Rightarrow> jsstring list" where
  "normalizeSegments allowAboveRoot p =
     rev (foldl (normalizeStep allowAboveRoot) [] (splitOn SLASH p))"

definition normalizeString :: "jsstring \<Rightarrow> bool \<Rightarrow> jsstring" where
  "normalizeString p allowAboveRoot = joinWith SLASH (normalizeSegments allowAboveRoot p)"

definition isAbsolute :: "jsstring \<Rightarrow> bool" where
  "isAbsolute p = (case p of [] \<Rightarrow> False | c # _ \<Rightarrow> c = SLASH)"

definition normalize :: "jsstring \<Rightarrow> jsstring" where
  "normalize p =
     (if p = [] then [DOT]
      else
        let absolute = isAbsolute p;
            trailingSeparator = (last p = SLASH);
            q = normalizeString p (\<not> absolute)
        in if q = [] then (if absolute then [SLASH]
                           else if trailingSeparator then [DOT, SLASH] else [DOT])
           else (if absolute then [SLASH] else []) @ q @ (if trailingSeparator then [SLASH] else []))"

text \<open>\<open>path.join\<close>: the non-empty arguments joined by slashes, then normalised.\<close>

definition join :: "jsstring list \<Rightarrow> jsstring" where
  "join args =
     (case filter (\<lambda>a. a \<noteq> []) args of
        [] \<Rightarrow> [DOT]
      | a # as \<Rightarrow> normalize (joinWith SLASH (a # as)))"

text \<open>
  \<open>path.resolve\<close>: the arguments are taken from right to left, then the current
  working directory, until an absolute one has been prepended; empty ones are skipped.
\<close>

fun resolveLoop :: "jsstring list \<Rightarrow> jsstring \<Rightarrow> jsstring \<times> bool" where
  "resolveLoop [] resolvedPath = (resolvedPath, False)"
| "resolveLoop (p # ps) resolvedPath =
     (if p = [] then resolveLoop ps resolvedPath
      else if isAbsolute p then (p @ SLASH # resolvedPath, True)
      else resolveLoop ps (p @ SLASH # resolvedPath))"

definition resolve :: "jsstring \<Rightarrow> jsstring list \<Rightarrow> jsstring" where
  "resolve cwd args =
     (case resolveLoop (rev args @ [cwd]) [] of
        (resolvedPath, resolvedAbsolute) \<Rightarrow>
          let q = normalizeString resolvedPath (\<not> resolvedAbsolute)
          in if resolvedAbsolute then SLASH # q
             else if q \<noteq> [] then q else [DOT])"

text \<open>
  \<open>path.relative\<close>: both paths are resolved; below their longest common run of
  segments, one \<open>..\<close> is produced for each remaining segment of \<open>from\<close>, followed by
  the remaining segments of \<open>to\<close>.
\<close>

fun commonPrefix :: "'a list \<Rightarrow> 'a list \<Rightarrow> nat" where
  "commonPrefix (x # xs) (y # ys) = (if x = y then Suc (commonPrefix xs ys) else 0)"
| "commonPrefix _ _ = 0"

definition relative :: "jsstring \<Rightarrow> jsstring \<Rightarrow> jsstring \<Rightarrow> jsstring" where
  "relative cwd from to =
     (if from = to then []
      else
        let from' = resolve cwd [from];
            to' = resolve cwd [to]
        in if from' = to' then []
           else
             let fs = normalizeSegments False from';
                 ts = normalizeSegments False to';
                 n = commonPrefix fs ts
             in joinWith SLASH (replicate (length fs - n) [DOT, DOT] @ drop n ts))"

text \<open>
  \<open>path.dirname\<close>: the scan runs from the last index down to index 1. Trailing slashes
  are passed over, then the last segment, and the scan stops at the slash before it.
\<close>

fun dirnameScan :: "jsstring \<Rightarrow> nat \<Rightarrow> bool \<Rightarrow> nat option" where
  "dirnameScan p 0 matchedSlash = None"
| "dirnameScan p (Suc i) matchedSlash =
     (if p ! Suc i = SLASH
      then (if \<not> matchedSlash then Some (Suc i) else dirnameScan p i matchedSlash)
      else dirnameScan p i False)"

definition dirname :: "jsstring \<Rightarrow> jsstring" where
  "dirname p =
     (if p = [] then [DOT]
      else
        let hasRoot = (hd p = SLASH)
        in case dirnameScan p (length p - 1) True of
             None \<Rightarrow> (if hasRoot then [SLASH] else [DOT])
           | Some e \<Rightarrow> (if hasRoot \<and> e = 1 then [SLASH, SLASH] else take e p))"

section \<open>The environment\<close>

text \<open>
  What the program reads from outside: the current working directory
  (\<open>process.cwd()\<close>) and the set of existing paths (\<open>fs.existsSync\<close>).
\<close>

record env =
  cwd :: jsstring
  existsSync :: "jsstring \<Rightarrow> bool"

datatype error = Error jsstring | TypeError

section \<open>The project-root resolver (src/utils/project-root.ts)\<close>

definition markers :: "jsstring list" where
  "markers =
     [str ''.git'', str ''package.json'', str ''yarn.lock'', str ''pnpm-lock.yaml'',
      str ''package-lock.json'', str ''lerna.json'', str ''nx.json'', str ''workspace.json'']"

definition notFoundMessage :: jsstring where
  "notFoundMessage =
     str ''Could not find project root. Make sure you are in a project directory with package.json or .git''"

definition dirMeasure :: "jsstring \<Rightarrow> nat" where
  "dirMeasure p = (if p = [DOT] \<or> p = [SLASH] then 0 else Suc (length p))"

lemma dirnameScan_bounds: "dirnameScan p i m = Some e \<Longrightarrow> 1 \<le> e \<and> e \<le> i"
  by (induction p i m rule: dirnameScan.induct) (auto split: if_splits)

lemma dirname_decreases: "p \<noteq> dirname p \<Longrightarrow> dirMeasure (dirname p) < dirMeasure p"
proof (cases "p = []")
  case True
  then show ?thesis by (simp add: dirname_def dirMeasure_def)
next
  case False
  assume neq: "p \<noteq> dirname p"
  show ?thesis
  proof (cases "dirnameScan p (length p - 1) True")
    case None
    with False neq show ?thesis
      by (auto simp: dirname_def dirMeasure_def Let_def split: if_splits)
  next
    case (Some e)
    from dirnameScan_bounds [OF Some] have e: "1 \<le> e" "e \<le> length p - 1" by auto
    with False have len: "e < length p" by (cases p) auto
    show ?thesis
    proof (cases "hd p = SLASH \<and> e = 1")
      case True
      with e len have "2 \<le> length p" by simp
      moreover have "p \<noteq> [SLASH, SLASH]"
        using neq Some True False by (simp add: dirname_def)
      moreover have "dirname p = [SLASH, SLASH]"
        using Some True False by (simp add: dirname_def)
      ultimately show ?thesis
        using e len True Some False
        by (cases p; cases "tl p"; cases "tl (tl p)") (auto simp: dirMeasure_def)
    next
      case notroot: False
      then have d: "dirname p = take e p"
        using Some False by (auto simp: dirname_def)
      have "p \<noteq> [DOT]" "p \<noteq> [SLASH]" using e len by auto
      then have "dirMeasure p = Suc (length p)" by (simp add: dirMeasure_def)
      moreover have "dirMeasure (take e p) \<le> Suc e"
        using len by (simp add: dirMeasure_def)
      ultimately show ?thesis using d len by simp
    qed
  qed
qed

text \<open>
  The \<open>while\<close> loop of \<open>findProjectRoot\<close>: the inner \<open>for\<close> loop returns the
  current directory at the first marker that exists in it.
\<close>

function findProjectRootLoop :: "env \<Rightarrow> jsstring \<Rightarrow> error + jsstring" where
  "findProjectRootLoop e currentDir =
     (if currentDir \<noteq> dirname currentDir then
        (if list_ex (\<lambda>marker. existsSync e (join [currentDir, marker])) markers
         then Inr currentDir
         else findProjectRootLoop e (dirname currentDir))
      else Inl (Error notFoundMessage))"
  by pat_completeness auto
termination
  by (relation "measure (\<lambda>(e, p). dirMeasure p)") (auto simp: dirname_decreases)

declare findProjectRootLoop.simps [simp del]

text \<open>\<open>startDir || process.cwd()\<close>: an absent or empty start directory is replaced.\<close>

definition findProjectRoot :: "env \<Rightarrow> jsstring option \<Rightarrow> error + jsstring" where
  "findProjectRoot e startDir =
     findProjectRootLoop e
       (case startDir of None \<Rightarrow> cwd e | Some d \<Rightarrow> (if d = [] then cwd e else d))"

definition isProjectRoot :: "env \<Rightarrow> jsstring \<Rightarrow> bool" where
  "isProjectRoot e dir = (case findProjectRoot e (Some dir) of Inl _ \<Rightarrow> False | Inr _ \<Rightarrow> True)"

section \<open>The runtime validators (src/index.ts)\<close>

text \<open>
  The validators are declared on strings, but the first check of \<open>validatePath\<close> is
  on the run-time type of the argument, so the argument is a JavaScript value.
\<close>

datatype jsvalue = JSString jsstring | JSNull | JSUndefined

definition getProjectRoot :: "env \<Rightarrow> error + jsstring" where
  "getProjectRoot e = findProjectRoot e None"

text \<open>\<open>errorMessage || d\<close>: an absent or empty message is replaced by the default.\<close>

definition orDefault :: "jsstring option \<Rightarrow> jsstring \<Rightarrow> jsstring" where
  "orDefault errorMessage d =
     (case errorMessage of None \<Rightarrow> d | Some m \<Rightarrow> (if m = [] then d else m))"

definition invalidCharsSuffix :: jsstring where
  "invalidCharsSuffix = str '': contains invalid characters''"

definition escapesSuffix :: jsstring where
  "escapesSuffix = str '': path escapes project root''"

definition validatePath :: "env \<Rightarrow> jsvalue \<Rightarrow> jsstring \<Rightarrow> error + unit" where
  "validatePath e pathStr errorMessage =
     (case pathStr of
        JSString s \<Rightarrow>
          if trim s = [] then Inl (Error errorMessage)
          else if invalidChars_test s then Inl (Error (errorMessage @ invalidCharsSuffix))
          else if startsWith s (str ''./'') \<or> startsWith s (str ''../'') then
            (case getProjectRoot e of
               Inl err \<Rightarrow> Inl err
             | Inr root \<Rightarrow>
                 let resolvedPath = resolve (cwd e) [root, s]
                 in (case getProjectRoot e of
                       Inl err \<Rightarrow> Inl err
                     | Inr projectRoot \<Rightarrow>
                         if \<not> startsWith resolvedPath projectRoot
                         then Inl (Error (errorMessage @ escapesSuffix))
                         else Inr ()))
          else Inr ()
      | _ \<Rightarrow> Inl (Error errorMessage))"

definition FilePath :: "env \<Rightarrow> jsvalue \<Rightarrow> jsstring option \<Rightarrow> error + jsvalue" where
  "FilePath e pathStr errorMessage =
     (case validatePath e pathStr (orDefault errorMessage (str ''Invalid file path'')) of
        Inl err \<Rightarrow> Inl err
      | Inr _ \<Rightarrow> Inr pathStr)"

definition FolderPath :: "env \<Rightarrow> jsvalue \<Rightarrow> jsstring option \<Rightarrow> error + jsvalue" where
  "FolderPath e pathStr errorMessage =
     (case validatePath e pathStr (orDefault errorMessage (str ''Invalid folder path'')) of
        Inl err \<Rightarrow> Inl err
      | Inr _ \<Rightarrow> Inr pathStr)"

definition AnyPath :: "env \<Rightarrow> jsvalue \<Rightarrow> jsstring option \<Rightarrow> error + jsvalue" where
  "AnyPath e pathStr errorMessage =
     (case validatePath e pathStr (orDefault errorMessage (str ''Invalid path'')) of
        Inl err \<Rightarrow> Inl err
      | Inr _ \<Rightarrow> Inr pathStr)"

section \<open>The static path checker (src/linter.ts)\<close>

subsection \<open>The syntax tree of the host compiler\<close>

text \<open>
  Only what the checker looks at is kept of the TypeScript syntax tree: an entity name
  is an identifier or a qualified name whose right part is an identifier; a type node is
  a type reference or anything else; an initializer is a string literal, with its text
  and its span, or anything else; a node is a variable declaration or anything else, and
  carries the children that \<open>ts.forEachChild\<close> visits.
\<close>

datatype ts_identifier = Identifier (identifierText: jsstring)

datatype entity_name = EntityIdentifier ts_identifier | QualifiedName entity_name ts_identifier

datatype type_node = TypeReferenceNode entity_name | OtherTypeNode

datatype expression =
    StringLiteral jsstring nat nat
  | OtherExpression

datatype node =
    VariableDeclaration "type_node option" "expression option" "node list"
  | OtherNode "node list"

record source_file =
  fileName :: jsstring
  isDeclarationFile :: bool
  statements :: "node list"

record program =
  getSourceFiles :: "source_file list"
  getSourceFile :: "jsstring \<Rightarrow> source_file option"

datatype diagnostic_category = Warning | Error' | Suggestion | Message

record diagnostic =
  category :: diagnostic_category
  code :: nat
  messageText :: jsstring
  file' :: source_file
  start :: nat
  length' :: nat

subsection \<open>The linter\<close>

datatype severity = SeverityError | SeverityWarn | SeverityOff

record linter_options =
  severity :: "severity option"

record path_linter =
  linterProgram :: program
  projectRoot :: jsstring
  options :: linter_options

text \<open>
  The constructor: the project root is resolved once, from the working directory, and
  \<^verbatim>\<open>{ severity: 'error', ...options }\<close> fills in the default severity.
\<close>

definition newPathLinter :: "env \<Rightarrow> program \<Rightarrow> linter_options \<Rightarrow> error + path_linter" where
  "newPathLinter e prog opts =
     (case findProjectRoot e None of
        Inl err \<Rightarrow> Inl err
      | Inr root \<Rightarrow>
          Inr \<lparr>linterProgram = prog, projectRoot = root,
               options = \<lparr>severity = (case severity opts of None \<Rightarrow> Some SeverityError
                                                       | Some s \<Rightarrow> Some s)\<rparr>\<rparr>)"

definition getSeverityCategory :: "path_linter \<Rightarrow> diagnostic_category" where
  "getSeverityCategory l =
     (case severity (options l) of
        Some SeverityWarn \<Rightarrow> Warning
      | Some SeverityOff \<Rightarrow> Suggestion
      | Some SeverityError \<Rightarrow> Error'
      | None \<Rightarrow> Error')"

fun getTypeNameFromAST :: "entity_name \<Rightarrow> jsstring" where
  "getTypeNameFromAST (EntityIdentifier i) = identifierText i"
| "getTypeNameFromAST (QualifiedName left right) = getTypeNameFromAST (EntityIdentifier right)"

definition isPathType :: "type_node \<Rightarrow> bool" where
  "isPathType typeNode =
     (case typeNode of
        TypeReferenceNode typeName \<Rightarrow>
          let n = getTypeNameFromAST typeName
          in n = str ''FilePathStr'' \<or> n = str ''FolderPathStr'' \<or> n = str ''AnyPathStr''
      | OtherTypeNode \<Rightarrow> False)"

definition isValidPath :: "env \<Rightarrow> path_linter \<Rightarrow> jsstring \<Rightarrow> bool" where
  "isValidPath e l pathValue =
     (if pathValue = [] then False
      else if invalidChars_test pathValue then False
      else
        let fullPath = (if isAbsolute pathValue then pathValue
                        else resolve (cwd e) [projectRoot l, pathValue]);
            relativePath = relative (cwd e) (projectRoot l) fullPath
        in if startsWith relativePath (str ''..'') \<or> isAbsolute relativePath then False
           else existsSync e fullPath)"

definition invalidPathMessage :: "jsstring \<Rightarrow> jsstring" where
  "invalidPathMessage pathValue =
     str ''Invalid path: '' @ [34] @ pathValue @ [34] @ str '' does not exist or is not accessible''"

text \<open>
  \<open>checkVariableDeclaration\<close> is called on a variable declaration that has an
  initializer; the source file is the one the declaration belongs to.
\<close>

definition checkVariableDeclaration ::
  "env \<Rightarrow> path_linter \<Rightarrow> source_file \<Rightarrow> type_node option \<Rightarrow> expression \<Rightarrow> diagnostic option" where
  "checkVariableDeclaration e l sf declType initializer =
     (case initializer of
        OtherExpression \<Rightarrow> None
      | StringLiteral pathValue litStart litWidth \<Rightarrow>
          (case declType of
             None \<Rightarrow> None
           | Some typeNode \<Rightarrow>
               if \<not> isPathType typeNode then None
               else if \<not> isValidPath e l pathValue then
                 Some \<lparr>category = getSeverityCategory l, code = 1001,
                       messageText = invalidPathMessage pathValue,
                       file' = sf, start = litStart, length' = litWidth\<rparr>
               else None))"

fun visit :: "env \<Rightarrow> path_linter \<Rightarrow> source_file \<Rightarrow> node \<Rightarrow> diagnostic list" where
  "visit e l sf (VariableDeclaration declType initializer children) =
     (case initializer of
        None \<Rightarrow> []
      | Some i \<Rightarrow> (case checkVariableDeclaration e l sf declType i of
                    None \<Rightarrow> []
                  | Some d \<Rightarrow> [d]))
     @ concat (map (visit e l sf) children)"
| "visit e l sf (OtherNode children) = concat (map (visit e l sf) children)"

definition checkFile :: "env \<Rightarrow> path_linter \<Rightarrow> source_file \<Rightarrow> diagnostic list" where
  "checkFile e l sf = concat (map (visit e l sf) (statements sf))"

definition run :: "env \<Rightarrow> path_linter \<Rightarrow> diagnostic list" where
  "run e l =
     concat (map (checkFile e l)
       (filter (\<lambda>sf. \<not> isDeclarationFile sf) (getSourceFiles (linterProgram l))))"

subsection \<open>The language-service plugin\<close>

text \<open>
  A language service is an object of the host: its diagnostics entry point, its program
  accessor (which may return \<open>undefined\<close>) and every other property, by name.
  A property read gives one of the two functions or another value.
\<close>

record 'v language_service =
  getSemanticDiagnostics :: "jsstring \<Rightarrow> diagnostic list"
  getProgram :: "program option"
  otherProperty :: "jsstring \<Rightarrow> 'v"

datatype 'v property =
    SemanticDiagnosticsFn "jsstring \<Rightarrow> error + diagnostic list"
  | ProgramFn "program option"
  | OtherProperty 'v

definition reflectGet :: "'v language_service \<Rightarrow> jsstring \<Rightarrow> 'v property" where
  "reflectGet target prop =
     (if prop = str ''getSemanticDiagnostics''
      then SemanticDiagnosticsFn (\<lambda>name. Inr (getSemanticDiagnostics target name))
      else if prop = str ''getProgram'' then ProgramFn (getProgram target)
      else OtherProperty (otherProperty target prop))"

text \<open>The function that the proxy returns for \<open>getSemanticDiagnostics\<close>.\<close>

definition interceptedDiagnostics ::
  "env \<Rightarrow> path_linter \<Rightarrow> 'v language_service \<Rightarrow> jsstring \<Rightarrow> error + diagnostic list" where
  "interceptedDiagnostics e l target name =
     (let originalDiagnostics = getSemanticDiagnostics target name
      in case getProgram target of
           None \<Rightarrow> Inl TypeError
         | Some prog \<Rightarrow>
             (case getSourceFile prog name of
                None \<Rightarrow> Inr originalDiagnostics
              | Some sourceFile \<Rightarrow>
                  let customDiagnostics = checkFile e l sourceFile
                  in Inr (originalDiagnostics @ customDiagnostics)))"

definition proxyGet ::
  "env \<Rightarrow> path_linter \<Rightarrow> 'v language_service \<Rightarrow> jsstring \<Rightarrow> 'v property" where
  "proxyGet e l target prop =
     (if prop = str ''getSemanticDiagnostics''
      then SemanticDiagnosticsFn (interceptedDiagnostics e l target)
      else reflectGet target prop)"

text \<open>
  \<open>create\<close>: the linter is built from the program of the service (a \<open>TypeError\<close>
  when there is none), and the proxy is returned as its property-read function.
\<close>

definition create ::
  "env \<Rightarrow> linter_options \<Rightarrow> 'v language_service \<Rightarrow> error + (jsstring \<Rightarrow> 'v property)" where
  "create e opts languageService =
     (case getProgram languageService of
        None \<Rightarrow> Inl TypeError
      | Some prog \<Rightarrow>
          (case newPathLinter e prog opts of
             Inl err \<Rightarrow> Inl err
           | Inr l \<Rightarrow> Inr (proxyGet e l languageService)))"

section \<open>Concrete environments and programs\<close>

text \<open>
  A project at \<open>/home/proj\<close>, marked by its \<open>package.json\<close>, with the working
  directory at the project root. Nothing else exists.
\<close>

definition env0 :: env where
  "env0 =
     \<lparr>cwd = str ''/home/proj'',
      existsSync = (\<lambda>p. p = str ''/home/proj'' \<or> p = str ''/home/proj/package.json'')\<rparr>"

text \<open>
  The same project at the file-system root: \<open>/package.json\<close> exists and the working
  directory is \<open>/\<close>.
\<close>

definition env1 :: env where
  "env1 = \<lparr>cwd = str ''/'', existsSync = (\<lambda>p. p = str ''/'' \<or> p = str ''/package.json'')\<rparr>"

text \<open>
  Two source files. The first declares two variables of type \<open>FilePathStr\<close>, one
  initialised with a path that does not exist and one with \<open>package.json\<close>. The second
  declares a variable of the keyword type \<open>string\<close> and one of type
  \<open>FilePathStr.Other\<close>, both initialised with a path that does not exist.
\<close>

definition filePathStrType :: type_node where
  "filePathStrType = TypeReferenceNode (EntityIdentifier (Identifier (str ''FilePathStr'')))"

definition markedFile :: source_file where
  "markedFile =
     \<lparr>fileName = str ''marked.ts'', isDeclarationFile = False,
      statements =
        [OtherNode
           [VariableDeclaration (Some filePathStrType)
              (Some (StringLiteral (str ''src/nonexistent-file.ts'') 40 25)) [],
            VariableDeclaration (Some filePathStrType)
              (Some (StringLiteral (str ''package.json'') 100 14)) []]]\<rparr>"

definition plainStringFile :: source_file where
  "plainStringFile =
     \<lparr>fileName = str ''test.ts'', isDeclarationFile = False,
      statements =
        [OtherNode
           [VariableDeclaration (Some OtherTypeNode)
              (Some (StringLiteral (str ''src/some-file.ts'') 36 18)) [],
            VariableDeclaration
              (Some (TypeReferenceNode
                 (QualifiedName (EntityIdentifier (Identifier (str ''FilePathStr'')))
                    (Identifier (str ''Other'')))))
              (Some (StringLiteral (str ''src/some-file.ts'') 90 18)) []]]\<rparr>"

definition program0 :: program where
  "program0 =
     \<lparr>getSourceFiles = [markedFile, plainStringFile],
      getSourceFile = (\<lambda>n. if n = str ''marked.ts'' then Some markedFile
                          else if n = str ''test.ts'' then Some plainStringFile else None)\<rparr>"

definition linter0 :: path_linter where
  "linter0 =
     \<lparr>linterProgram = program0, projectRoot = str ''/home/proj'',
      options = \<lparr>severity = Some SeverityError\<rparr>\<rparr>"

definition nonexistentDiagnostic :: "diagnostic_category \<Rightarrow> diagnostic" where
  "nonexistentDiagnostic c =
     \<lparr>category = c, code = 1001,
      messageText = invalidPathMessage (str ''src/nonexistent-file.ts''),
      file' = markedFile, start = 40, length' = 25\<rparr>"

text \<open>A language service over that program which reports one diagnostic of its own.\<close>

definition hostDiagnostic :: diagnostic where
  "hostDiagnostic =
     \<lparr>category = Error', code = 2322, messageText = str ''Type mismatch'',
      file' = markedFile, start = 7, length' = 3\<rparr>"

definition service0 :: "unit language_service" where
  "service0 =
     \<lparr>getSemanticDiagnostics = (\<lambda>n. if n = str ''marked.ts'' then [hostDiagnostic] else []),
      getProgram = Some program0,
      otherProperty = (\<lambda>_. ())\<rparr>"

section \<open>Notions of the specification\<close>

text \<open>
  A location lies inside the directory subtree of the root when the segments of the
  resolved root are the first segments of the resolved location.
\<close>

definition withinSubtree :: "jsstring \<Rightarrow> jsstring \<Rightarrow> jsstring \<Rightarrow> bool" where
  "withinSubtree wd root p =
     prefix (normalizeSegments False (resolve wd [root])) (normalizeSegments False (resolve wd [p]))"

text \<open>
  A path continues the last segment of the root when it begins with the root path and
  goes on with a code unit other than the separator, as \<open>/home/proj2/x\<close> does for the
  root \<open>/home/proj\<close>: it shares the text of the root path without lying below it.
\<close>

definition continuesLastSegment :: "jsstring \<Rightarrow> jsstring \<Rightarrow> bool" where
  "continuesLastSegment root p =
     (startsWith p root \<and> length root < length p \<and> p ! length root \<noteq> SLASH)"

text \<open>
  A segment that normalisation keeps as it is: not empty, without a separator, and
  neither \<open>.\<close> nor \<open>..\<close>.
\<close>

definition cleanSegment :: "jsstring \<Rightarrow> bool" where
  "cleanSegment x = (x \<noteq> [] \<and> SLASH \<notin> set x \<and> x \<noteq> [DOT] \<and> x \<noteq> [DOT, DOT])"

text \<open>
  The segments of an entity name, from left to right; the rightmost one is the simple
  name of the type. An annotation is a marker annotation when it is a type reference
  whose simple name is one of the three marker names. A tree has no marker declaration
  when no variable declaration in it carries a marker annotation.
\<close>

fun segments :: "entity_name \<Rightarrow> jsstring list" where
  "segments (EntityIdentifier i) = [identifierText i]"
| "segments (QualifiedName left right) = segments left @ [identifierText right]"

definition markerNames :: "jsstring set" where
  "markerNames = {str ''FilePathStr'', str ''FolderPathStr'', str ''AnyPathStr''}"

definition markerAnnotation :: "type_node option \<Rightarrow> bool" where
  "markerAnnotation declType =
     (case declType of
        Some (TypeReferenceNode typeName) \<Rightarrow> last (segments typeName) \<in> markerNames
      | _ \<Rightarrow> False)"

fun noMarkerDeclaration :: "node \<Rightarrow> bool" where
  "noMarkerDeclaration (VariableDeclaration declType initializer children) =
     (\<not> markerAnnotation declType \<and> list_all noMarkerDeclaration children)"
| "noMarkerDeclaration (OtherNode children) = list_all noMarkerDeclaration children"

section \<open>Facts about the project-root resolver\<close>

text \<open>
  One round of the loop: a directory that is its own parent ends the walk without being
  tested; any other directory is returned when it holds a marker, and the walk goes on
  from its parent when it does not.
\<close>

lemma findProjectRootLoop_fixpoint:
  "dirname d = d \<Longrightarrow> findProjectRootLoop e d = Inl (Error notFoundMessage)"
  by (simp add: findProjectRootLoop.simps [of e d])

lemma findProjectRootLoop_found:
  "dirname d \<noteq> d \<Longrightarrow> list_ex (\<lambda>marker. existsSync e (join [d, marker])) markers \<Longrightarrow>
   findProjectRootLoop e d = Inr d"
  by (subst findProjectRootLoop.simps) auto

lemma findProjectRootLoop_ascend:
  "dirname d \<noteq> d \<Longrightarrow> \<not> list_ex (\<lambda>marker. existsSync e (join [d, marker])) markers \<Longrightarrow>
   findProjectRootLoop e d = findProjectRootLoop e (dirname d)"
  by (subst findProjectRootLoop.simps) auto

lemma root_env0: "getProjectRoot env0 = Inr (str ''/home/proj'')"
  by code_simp

section \<open>Facts about strings and the validation steps\<close>

lemma trim_Nil_iff: "trim s = [] \<longleftrightarrow> (\<forall>c\<in>set s. isWhiteSpace c)"
proof -
  have "trim s = [] \<longleftrightarrow> (\<forall>c\<in>set (dropWhile isWhiteSpace s). isWhiteSpace c)"
    by (simp add: trim_def dropWhile_eq_Nil_conv)
  also have "\<dots> \<longleftrightarrow> dropWhile isWhiteSpace s = []"
    by (metis hd_dropWhile hd_in_set empty_iff list.set(1))
  also have "\<dots> \<longleftrightarrow> (\<forall>c\<in>set s. isWhiteSpace c)"
    by (simp add: dropWhile_eq_Nil_conv)
  finally show ?thesis .
qed

lemma invalidChars_test_iff:
  "invalidChars_test s \<longleftrightarrow> (\<exists>c\<in>set s. c \<in> {60, 62, 58, 34, 124, 63, 42} \<or> c \<le> 31)"
  by (auto simp: invalidChars_test_def list_ex_iff invalidChar_def)

lemma str_dot_slash: "str ''./'' = [DOT, SLASH]" and str_dot_dot_slash: "str ''../'' = [DOT, DOT, SLASH]"
  by (simp_all add: str_def)

lemma relative_prefix_trim: "startsWith s (str ''./'') \<or> startsWith s (str ''../'') \<Longrightarrow> trim s \<noteq> []"
proof -
  assume "startsWith s (str ''./'') \<or> startsWith s (str ''../'')"
  then have "DOT \<in> set s"
    by (cases s) (auto simp: startsWith_def str_dot_slash str_dot_dot_slash)
  moreover have "\<not> isWhiteSpace DOT" by (simp add: isWhiteSpace_def)
  ultimately show ?thesis by (auto simp: trim_Nil_iff)
qed

text \<open>What \<open>validatePath\<close> returns on a string, check by check.\<close>

lemma validatePath_blank:
  "trim s = [] \<Longrightarrow> validatePath e (JSString s) m = Inl (Error m)"
  by (simp add: validatePath_def)

lemma validatePath_invalid:
  "trim s \<noteq> [] \<Longrightarrow> invalidChars_test s \<Longrightarrow>
   validatePath e (JSString s) m = Inl (Error (m @ invalidCharsSuffix))"
  by (simp add: validatePath_def)

lemma validatePath_plain:
  "trim s \<noteq> [] \<Longrightarrow> \<not> invalidChars_test s \<Longrightarrow>
   \<not> startsWith s (str ''./'') \<Longrightarrow> \<not> startsWith s (str ''../'') \<Longrightarrow>
   validatePath e (JSString s) m = Inr ()"
  by (simp add: validatePath_def)

lemma validatePath_relative:
  "\<not> invalidChars_test s \<Longrightarrow> startsWith s (str ''./'') \<or> startsWith s (str ''../'') \<Longrightarrow>
   validatePath e (JSString s) m =
     (case getProjectRoot e of
        Inl err \<Rightarrow> Inl err
      | Inr root \<Rightarrow> if startsWith (resolve (cwd e) [root, s]) root then Inr ()
                    else Inl (Error (m @ escapesSuffix)))"
  using relative_prefix_trim [of s]
  by (auto simp: validatePath_def Let_def split: sum.splits)

section \<open>Facts about the path functions\<close>

lemma splitOn_not_Nil: "splitOn d p \<noteq> []"
  by (induction p) (auto split: list.splits)

lemma splitOn_append_sep: "splitOn d (a @ d # b) = splitOn d a @ splitOn d b"
  by (induction a) (auto split: list.splits simp: splitOn_not_Nil)

lemma splitOn_no_sep: "x \<in> set (splitOn d p) \<Longrightarrow> d \<notin> set x"
  by (induction p arbitrary: x) (auto split: list.splits if_splits)

lemma splitOn_single: "d \<notin> set x \<Longrightarrow> splitOn d x = [x]"
  by (induction x) auto

lemma splitOn_joinWith:
  "xs \<noteq> [] \<Longrightarrow> \<forall>x\<in>set xs. d \<notin> set x \<Longrightarrow> splitOn d (joinWith d xs) = xs"
  by (induction d xs rule: joinWith.induct) (simp_all add: splitOn_single splitOn_append_sep)

lemma foldl_normalizeStep_tidy:
  "\<forall>x\<in>set ys. x = [] \<or> cleanSegment x \<Longrightarrow>
   foldl (normalizeStep False) acc ys = rev (filter (\<lambda>x. x \<noteq> []) ys) @ acc"
  by (induction ys arbitrary: acc) (auto simp: cleanSegment_def)

lemma normalizeSegments_tidy:
  "\<forall>x\<in>set (splitOn SLASH p). x = [] \<or> cleanSegment x \<Longrightarrow>
   normalizeSegments False p = filter (\<lambda>x. x \<noteq> []) (splitOn SLASH p)"
  by (simp add: normalizeSegments_def foldl_normalizeStep_tidy)

lemma foldl_normalizeStep_clean:
  "\<forall>x\<in>set ys. SLASH \<notin> set x \<Longrightarrow> \<forall>x\<in>set acc. cleanSegment x \<Longrightarrow>
   \<forall>x\<in>set (foldl (normalizeStep False) acc ys). cleanSegment x"
proof (induction ys arbitrary: acc)
  case Nil
  then show ?case by simp
next
  case (Cons y ys)
  have "\<forall>x\<in>set (normalizeStep False acc y). cleanSegment x"
    using Cons.prems by (cases acc) (auto simp: cleanSegment_def)
  with Cons show ?case by simp
qed

lemma normalizeSegments_clean: "\<forall>x\<in>set (normalizeSegments False p). cleanSegment x"
  using foldl_normalizeStep_clean [of "splitOn SLASH p" "[]"] splitOn_no_sep [of _ SLASH p]
  by (auto simp: normalizeSegments_def)

lemma splitOn_absolute_join:
  assumes "\<forall>x\<in>set B. cleanSegment x"
  shows "splitOn SLASH (SLASH # joinWith SLASH B) = [] # (if B = [] then [[]] else B)"
proof (cases "B = []")
  case True
  then show ?thesis by simp
next
  case False
  with assms have "splitOn SLASH (joinWith SLASH B) = B"
    by (intro splitOn_joinWith) (auto simp: cleanSegment_def)
  with False show ?thesis by simp
qed

lemma normalizeSegments_absolute_join:
  assumes "\<forall>x\<in>set B. cleanSegment x"
  shows "normalizeSegments False (SLASH # joinWith SLASH B) = B"
    and "normalizeSegments False ((SLASH # joinWith SLASH B) @ [SLASH]) = B"
proof -
  have f: "filter (\<lambda>x. x \<noteq> []) B = B"
    using assms by (auto simp: cleanSegment_def filter_id_conv)
  have s1: "splitOn SLASH (SLASH # joinWith SLASH B) = [] # (if B = [] then [[]] else B)"
    by (rule splitOn_absolute_join [OF assms])
  have s2: "splitOn SLASH ((SLASH # joinWith SLASH B) @ [SLASH]) =
      ([] # (if B = [] then [[]] else B)) @ [[]]"
    using splitOn_append_sep [of SLASH "SLASH # joinWith SLASH B" "[]"] s1 by simp
  have t1: "\<forall>x\<in>set (splitOn SLASH (SLASH # joinWith SLASH B)). x = [] \<or> cleanSegment x"
    unfolding s1 using assms by auto
  have t2: "\<forall>x\<in>set (splitOn SLASH ((SLASH # joinWith SLASH B) @ [SLASH])). x = [] \<or> cleanSegment x"
    unfolding s2 using assms by auto
  show "normalizeSegments False (SLASH # joinWith SLASH B) = B"
    unfolding normalizeSegments_tidy [OF t1] s1 using f by simp
  show "normalizeSegments False ((SLASH # joinWith SLASH B) @ [SLASH]) = B"
    unfolding normalizeSegments_tidy [OF t2] s2 using f by simp
qed

lemma resolve_absolute:
  "isAbsolute p \<Longrightarrow>
   resolve wd [p] = SLASH # joinWith SLASH (normalizeSegments False (p @ [SLASH]))"
  by (cases p) (simp_all add: resolve_def isAbsolute_def normalizeString_def)

lemma resolve_root_relative:
  "isAbsolute root \<Longrightarrow> s \<noteq> [] \<Longrightarrow> \<not> isAbsolute s \<Longrightarrow>
   resolve wd [root, s] =
     SLASH # joinWith SLASH (normalizeSegments False (root @ SLASH # s @ [SLASH]))"
  by (cases root) (simp_all add: resolve_def isAbsolute_def normalizeString_def)

lemma withinSubtree_continuation:
  assumes root: "isAbsolute root"
    and R: "R = SLASH # joinWith SLASH B" and B: "\<forall>x\<in>set B. cleanSegment x"
    and cont: "R = root \<or> (\<exists>rest. R = root @ SLASH # rest)"
  shows "withinSubtree wd root R"
proof -
  have absR: "isAbsolute R" by (simp add: R isAbsolute_def)
  have nR: "normalizeSegments False (resolve wd [R]) = B"
    using normalizeSegments_absolute_join [OF B]
    by (simp add: resolve_absolute [OF absR]) (simp add: R)
  from cont show ?thesis
  proof
    assume "R = root"
    then show ?thesis by (simp add: withinSubtree_def)
  next
    assume "\<exists>rest. R = root @ SLASH # rest"
    then obtain rest where rest: "R = root @ SLASH # rest" by blast
    have sp: "splitOn SLASH root @ splitOn SLASH rest = [] # (if B = [] then [[]] else B)"
      using splitOn_absolute_join [OF B] splitOn_append_sep [of SLASH root rest]
      by (simp add: R [symmetric] rest)
    then have tidy: "\<forall>x\<in>set (splitOn SLASH root). x = [] \<or> cleanSegment x"
    proof -
      have "set (splitOn SLASH root) \<subseteq> set ([] # (if B = [] then [[]] else B))"
        unfolding sp [symmetric] by simp
      with B show ?thesis by (auto split: if_splits)
    qed
    let ?A = "filter (\<lambda>x. x \<noteq> []) (splitOn SLASH root)"
    have A: "\<forall>x\<in>set ?A. cleanSegment x" using tidy by auto
    have "splitOn SLASH (root @ [SLASH]) = splitOn SLASH root @ [[]]"
      using splitOn_append_sep [of SLASH root "[]"] by simp
    then have "normalizeSegments False (root @ [SLASH]) = ?A"
      using tidy by (subst normalizeSegments_tidy) auto
    then have nroot: "normalizeSegments False (resolve wd [root]) = ?A"
      using normalizeSegments_absolute_join(1) [OF A]
      by (simp add: resolve_absolute [OF root])
    have "filter (\<lambda>x. x \<noteq> []) (splitOn SLASH root @ splitOn SLASH rest) =
        filter (\<lambda>x. x \<noteq> []) ([] # (if B = [] then [[]] else B))"
      by (simp only: sp)
    moreover have "filter (\<lambda>x. x \<noteq> []) B = B"
      using B by (auto simp: cleanSegment_def filter_id_conv)
    ultimately have "?A @ filter (\<lambda>x. x \<noteq> []) (splitOn SLASH rest) = B"
      by (auto split: if_splits)
    then have "prefix ?A B" by (metis prefixI)
    then show ?thesis by (simp add: withinSubtree_def nroot nR)
  qed
qed

lemma dirname_absolute: "isAbsolute p \<Longrightarrow> isAbsolute (dirname p)"
proof (cases "dirnameScan p (length p - 1) True")
  case None
  assume "isAbsolute p"
  with None show ?thesis
    by (cases p) (simp_all add: dirname_def isAbsolute_def)
next
  case (Some k)
  assume "isAbsolute p"
  moreover from dirnameScan_bounds [OF Some] have "1 \<le> k" by simp
  ultimately show ?thesis using Some
    by (cases p; cases k) (simp_all add: dirname_def isAbsolute_def)
qed

lemma findProjectRootLoop_absolute:
  "findProjectRootLoop e d = Inr r \<Longrightarrow> isAbsolute d \<Longrightarrow> isAbsolute r"
proof (induction e d rule: findProjectRootLoop.induct)
  case (1 e currentDir)
  from "1.prems" show ?case
    by (subst (asm) findProjectRootLoop.simps)
      (auto split: if_splits intro: "1.IH" dirname_absolute)
qed

lemma startsWith_split:
  assumes "startsWith p root" and "\<not> continuesLastSegment root p"
  shows "p = root \<or> (\<exists>rest. p = root @ SLASH # rest)"
proof -
  from assms(1) have p: "p = root @ drop (length root) p"
    by (metis append_take_drop_id startsWith_def)
  show ?thesis
  proof (cases "drop (length root) p")
    case Nil
    with p show ?thesis by simp
  next
    case (Cons c rest)
    with p have eq: "p = root @ c # rest" by simp
    then have "length root < length p" "p ! length root = c"
      by (simp_all add: nth_append)
    with assms have "c = SLASH" by (simp add: continuesLastSegment_def)
    with eq show ?thesis by blast
  qed
qed

lemma relative_candidate:
  assumes "startsWith s (str ''./'') \<or> startsWith s (str ''../'')"
  shows "s \<noteq> []" and "\<not> isAbsolute s"
  using assms by (cases s; auto simp: startsWith_def str_dot_slash str_dot_dot_slash isAbsolute_def)+

section \<open>Claim about the project-root resolver\<close>

text \<open>
  Claim C3 says that every ancestor of the start directory, the file-system root
  included, is tested for a marker and that the nearest one holding a marker is returned.
  The code does not test the directory that is its own parent: the loop ends there
  before its body runs. In the environment where \<open>/package.json\<close> exists, \<open>/\<close> is
  its own parent and holds a marker, and the search fails with the not-found error from
  the start directory \<open>/\<close>, from the working directory \<open>/\<close> and from
  \<open>/app/src\<close>.
\<close>

theorem findProjectRoot_skips_filesystem_root:
  "dirname (str ''/'') = str ''/''
   \<and> existsSync env1 (join [str ''/'', str ''package.json''])
   \<and> list_ex (\<lambda>marker. existsSync env1 (join [str ''/'', marker])) markers
   \<and> findProjectRoot env1 (Some (str ''/'')) = Inl (Error notFoundMessage)
   \<and> findProjectRoot env1 None = Inl (Error notFoundMessage)
   \<and> findProjectRoot env1 (Some (str ''/app/src'')) = Inl (Error notFoundMessage)"
  by code_simp

section \<open>Claims about the runtime validators\<close>

text \<open>
  Claim C4. A string that contains one of the characters \<^verbatim>\<open>< > : " | ? *\<close> (code units 60,
  62, 58, 34, 124, 63, 42) or a control character 0x00..0x1F is rejected by \<open>FilePath\<close>,
  \<open>FolderPath\<close> and \<open>AnyPath\<close>: each of them throws. The error carries the supplied or
  default message, with the suffix \<open>: contains invalid characters\<close> unless the string
  is blank after trimming, in which case the message is the plain one.
\<close>

theorem validators_reject_forbidden_characters:
  assumes "c \<in> set s" and "c \<in> {60, 62, 58, 34, 124, 63, 42} \<or> c \<le> 31"
  shows "FilePath e (JSString s) m =
           Inl (Error (let d = orDefault m (str ''Invalid file path'')
                       in if trim s = [] then d else d @ invalidCharsSuffix))
       \<and> FolderPath e (JSString s) m =
           Inl (Error (let d = orDefault m (str ''Invalid folder path'')
                       in if trim s = [] then d else d @ invalidCharsSuffix))
       \<and> AnyPath e (JSString s) m =
           Inl (Error (let d = orDefault m (str ''Invalid path'')
                       in if trim s = [] then d else d @ invalidCharsSuffix))"
proof -
  from assms have inv: "invalidChars_test s"
    unfolding invalidChars_test_iff by blast
  show ?thesis
  proof (cases "trim s = []")
    case True
    then show ?thesis
      by (simp add: FilePath_def FolderPath_def AnyPath_def validatePath_blank)
  next
    case False
    with inv show ?thesis
      by (simp add: FilePath_def FolderPath_def AnyPath_def validatePath_invalid)
  qed
qed

theorem validators_reject_forbidden_characters_witness:
  "60 \<in> set (str ''path/with/invalid<chars'')
   \<and> FilePath env0 (JSString (str ''path/with/invalid<chars'')) None =
       Inl (Error (str ''Invalid file path: contains invalid characters''))
   \<and> FolderPath env0 (JSString (str ''path/with/invalid<chars'')) None =
       Inl (Error (str ''Invalid folder path: contains invalid characters''))
   \<and> AnyPath env0 (JSString (str ''path/with/invalid<chars'')) (Some (str ''bad'')) =
       Inl (Error (str ''bad: contains invalid characters''))"
proof -
  have h1: "60 \<in> set (str ''path/with/invalid<chars'')" by (simp add: str_def)
  have h2: "(60::nat) \<in> {60, 62, 58, 34, 124, 63, 42} \<or> (60::nat) \<le> 31" by simp
  have t: "trim (str ''path/with/invalid<chars'') \<noteq> []"
    by (simp add: trim_Nil_iff str_def isWhiteSpace_def)
  show ?thesis
    using validators_reject_forbidden_characters [OF h1 h2, of env0 None]
      validators_reject_forbidden_characters [OF h1 h2, of env0 "Some (str ''bad'')"] h1 t
    by (simp add: orDefault_def invalidCharsSuffix_def str_def)
qed

text \<open>
  Claim C10. A non-empty string made of white space only (the control characters
  0x09..0x0D included, which are also forbidden characters) is rejected by each validator
  with the plain supplied or default message: the check of the trimmed string comes
  before the check of the characters, so the suffix \<open>: contains invalid characters\<close>
  is not added.
\<close>

theorem validators_reject_whitespace_only:
  assumes "s \<noteq> []" and "\<forall>c\<in>set s. isWhiteSpace c"
  shows "FilePath e (JSString s) m = Inl (Error (orDefault m (str ''Invalid file path'')))
       \<and> FolderPath e (JSString s) m = Inl (Error (orDefault m (str ''Invalid folder path'')))
       \<and> AnyPath e (JSString s) m = Inl (Error (orDefault m (str ''Invalid path'')))
       \<and> FilePath e (JSString s) m \<noteq>
           Inl (Error (orDefault m (str ''Invalid file path'') @ invalidCharsSuffix))
       \<and> FolderPath e (JSString s) m \<noteq>
           Inl (Error (orDefault m (str ''Invalid folder path'') @ invalidCharsSuffix))
       \<and> AnyPath e (JSString s) m \<noteq>
           Inl (Error (orDefault m (str ''Invalid path'') @ invalidCharsSuffix))"
proof -
  from assms(2) have "trim s = []" by (simp add: trim_Nil_iff)
  moreover have "invalidCharsSuffix \<noteq> []" by (simp add: invalidCharsSuffix_def str_def)
  ultimately show ?thesis
    by (simp add: FilePath_def FolderPath_def AnyPath_def validatePath_blank)
qed

theorem validators_reject_whitespace_only_witness:
  "invalidChars_test [9, 10, 13, 32]
   \<and> FilePath env0 (JSString [9, 10, 13, 32]) None = Inl (Error (str ''Invalid file path''))
   \<and> FolderPath env0 (JSString [9, 10, 13, 32]) (Some (str ''custom'')) = Inl (Error (str ''custom''))
   \<and> AnyPath env0 (JSString [9, 10, 13, 32]) (Some []) = Inl (Error (str ''Invalid path''))"
proof -
  have h1: "[9, 10, 13, 32] \<noteq> ([]::nat list)" by simp
  have h2: "\<forall>c\<in>set [9, 10, 13, 32]. isWhiteSpace c" by (simp add: isWhiteSpace_def)
  have h3: "invalidChars_test [9, 10, 13, 32]"
    by (simp add: invalidChars_test_def invalidChar_def)
  show ?thesis
    using validators_reject_whitespace_only [OF h1 h2, of env0 None]
      validators_reject_whitespace_only [OF h1 h2, of env0 "Some (str ''custom'')"]
      validators_reject_whitespace_only [OF h1 h2, of env0 "Some []"] h3
    by (simp add: orDefault_def str_def)
qed

text \<open>
  Claim C5, as stated, fails: the string made of one space is non-empty, has no forbidden
  character and starts with neither \<open>./\<close> nor \<open>../\<close>, and all three validators
  reject it, because it is empty after trimming.
\<close>

theorem validators_accept_nonblank_counterexample:
  "[32] \<noteq> ([]::nat list)
   \<and> \<not> invalidChars_test [32]
   \<and> \<not> startsWith [32] (str ''./'') \<and> \<not> startsWith [32] (str ''../'')
   \<and> FilePath env0 (JSString [32]) None = Inl (Error (str ''Invalid file path''))
   \<and> FolderPath env0 (JSString [32]) None = Inl (Error (str ''Invalid folder path''))
   \<and> AnyPath env0 (JSString [32]) None = Inl (Error (str ''Invalid path''))"
proof -
  have "trim [32] = []" by (simp add: trim_Nil_iff isWhiteSpace_def)
  then show ?thesis
    by (simp add: FilePath_def FolderPath_def AnyPath_def validatePath_blank orDefault_def
        startsWith_def str_dot_slash str_dot_dot_slash invalidChars_test_def invalidChar_def)
qed

text \<open>
  Claim C5, amended. A string that is not blank (it has a code unit that is not white
  space, so it is non-empty after trimming), has no forbidden character and starts with
  neither \<open>./\<close> nor \<open>../\<close> is returned unchanged by each validator, whatever the
  environment: neither the project root nor the file system is consulted.
\<close>

theorem validators_accept_nonblank:
  assumes "\<exists>c\<in>set s. \<not> isWhiteSpace c"
    and "\<not> (\<exists>c\<in>set s. c \<in> {60, 62, 58, 34, 124, 63, 42} \<or> c \<le> 31)"
    and "\<not> startsWith s (str ''./'')" and "\<not> startsWith s (str ''../'')"
  shows "FilePath e (JSString s) m = Inr (JSString s)
       \<and> FolderPath e (JSString s) m = Inr (JSString s)
       \<and> AnyPath e (JSString s) m = Inr (JSString s)"
proof -
  from assms(1) have "trim s \<noteq> []" by (simp add: trim_Nil_iff)
  moreover from assms(2) have "\<not> invalidChars_test s" unfolding invalidChars_test_iff by blast
  ultimately show ?thesis
    using assms(3,4)
    by (simp add: FilePath_def FolderPath_def AnyPath_def validatePath_plain)
qed

theorem validators_accept_nonblank_witness:
  "\<not> existsSync env0 (str ''/absolute/path/file.txt'')
   \<and> FilePath env0 (JSString (str ''/absolute/path/file.txt'')) None =
       Inr (JSString (str ''/absolute/path/file.txt''))
   \<and> FolderPath env0 (JSString (str ''/absolute/path/file.txt'')) None =
       Inr (JSString (str ''/absolute/path/file.txt''))
   \<and> AnyPath env0 (JSString (str ''/absolute/path/file.txt'')) None =
       Inr (JSString (str ''/absolute/path/file.txt''))"
proof -
  let ?s = "str ''/absolute/path/file.txt''"
  have h1: "\<exists>c\<in>set ?s. \<not> isWhiteSpace c" by (simp add: str_def isWhiteSpace_def)
  have h2: "\<not> (\<exists>c\<in>set ?s. c \<in> {60, 62, 58, 34, 124, 63, 42} \<or> c \<le> 31)"
    by (simp add: str_def)
  have h3: "\<not> startsWith ?s (str ''./'')" by (simp add: startsWith_def str_def)
  have h4: "\<not> startsWith ?s (str ''../'')" by (simp add: startsWith_def str_def)
  have h5: "\<not> existsSync env0 ?s" by (simp add: env0_def str_def)
  show ?thesis
    using validators_accept_nonblank [OF h1 h2 h3 h4, of env0 None] h5 by simp
qed

text \<open>
  Claim C6, as stated, fails: \<open>../x?\<close> begins with \<open>../\<close> and resolves to
  \<open>/home/x?\<close>, outside the root \<open>/home/proj\<close>, but it has a forbidden character and
  the validator fails at the character check, with the suffix
  \<open>: contains invalid characters\<close>.
\<close>

theorem escape_message_counterexample:
  "startsWith (str ''../x?'') (str ''../'')
   \<and> getProjectRoot env0 = Inr (str ''/home/proj'')
   \<and> \<not> startsWith (resolve (cwd env0) [str ''/home/proj'', str ''../x?'']) (str ''/home/proj'')
   \<and> FilePath env0 (JSString (str ''../x?'')) None =
       Inl (Error (str ''Invalid file path: contains invalid characters''))
   \<and> FilePath env0 (JSString (str ''../x?'')) None \<noteq>
       Inl (Error (str ''Invalid file path: path escapes project root''))"
proof -
  have r: "resolve (cwd env0) [str ''/home/proj'', str ''../x?''] = str ''/home/x?''"
    by code_simp
  have t: "trim (str ''../x?'') \<noteq> []" by (simp add: trim_Nil_iff str_def isWhiteSpace_def)
  have i: "invalidChars_test (str ''../x?'')" by (simp add: invalidChars_test_iff str_def)
  show ?thesis
    by (simp add: root_env0 r FilePath_def validatePath_invalid [OF t i] orDefault_def)
      (simp add: str_def startsWith_def invalidCharsSuffix_def)
qed

text \<open>
  Claim C6, amended. A candidate without forbidden characters that begins with \<open>./\<close>
  or \<open>../\<close> and whose resolution against the project root does not begin with the
  project root path is rejected by each validator with the supplied or default message
  followed by \<open>: path escapes project root\<close>. A candidate that begins with neither
  is not containment-checked: the result of each validator on it is the same in every
  environment.
\<close>

theorem escape_check:
  "(\<not> (\<exists>c\<in>set s. c \<in> {60, 62, 58, 34, 124, 63, 42} \<or> c \<le> 31)
      \<and> (startsWith s (str ''./'') \<or> startsWith s (str ''../''))
      \<and> getProjectRoot e = Inr root
      \<and> \<not> startsWith (resolve (cwd e) [root, s]) root
    \<longrightarrow> FilePath e (JSString s) m =
          Inl (Error (orDefault m (str ''Invalid file path'') @ escapesSuffix))
      \<and> FolderPath e (JSString s) m =
          Inl (Error (orDefault m (str ''Invalid folder path'') @ escapesSuffix))
      \<and> AnyPath e (JSString s) m =
          Inl (Error (orDefault m (str ''Invalid path'') @ escapesSuffix)))
   \<and> (\<not> startsWith s (str ''./'') \<and> \<not> startsWith s (str ''../'')
    \<longrightarrow> FilePath e (JSString s) m = FilePath e' (JSString s) m
      \<and> FolderPath e (JSString s) m = FolderPath e' (JSString s) m
      \<and> AnyPath e (JSString s) m = AnyPath e' (JSString s) m)"
proof (intro conjI impI)
  assume a: "\<not> (\<exists>c\<in>set s. c \<in> {60, 62, 58, 34, 124, 63, 42} \<or> c \<le> 31)
      \<and> (startsWith s (str ''./'') \<or> startsWith s (str ''../''))
      \<and> getProjectRoot e = Inr root
      \<and> \<not> startsWith (resolve (cwd e) [root, s]) root"
  then have ok: "\<not> invalidChars_test s" unfolding invalidChars_test_iff by blast
  from a have rel: "startsWith s (str ''./'') \<or> startsWith s (str ''../'')" by blast
  from a have v: "validatePath e (JSString s) d = Inl (Error (d @ escapesSuffix))" for d
    by (simp add: validatePath_relative [OF ok rel])
  show "FilePath e (JSString s) m =
          Inl (Error (orDefault m (str ''Invalid file path'') @ escapesSuffix))"
    by (simp add: FilePath_def v)
  show "FolderPath e (JSString s) m =
          Inl (Error (orDefault m (str ''Invalid folder path'') @ escapesSuffix))"
    by (simp add: FolderPath_def v)
  show "AnyPath e (JSString s) m =
          Inl (Error (orDefault m (str ''Invalid path'') @ escapesSuffix))"
    by (simp add: AnyPath_def v)
next
  assume b: "\<not> startsWith s (str ''./'') \<and> \<not> startsWith s (str ''../'')"
  then have v: "validatePath e (JSString s) d = validatePath e' (JSString s) d" for d
    by (simp add: validatePath_def)
  show "FilePath e (JSString s) m = FilePath e' (JSString s) m"
    by (simp add: FilePath_def v)
  show "FolderPath e (JSString s) m = FolderPath e' (JSString s) m"
    by (simp add: FolderPath_def v)
  show "AnyPath e (JSString s) m = AnyPath e' (JSString s) m"
    by (simp add: AnyPath_def v)
qed

theorem escape_check_witness:
  "FilePath env0 (JSString (str ''../../../etc/passwd'')) None =
     Inl (Error (str ''Invalid file path: path escapes project root''))
   \<and> FolderPath env0 (JSString (str ''../../../etc/passwd'')) None =
     Inl (Error (str ''Invalid folder path: path escapes project root''))
   \<and> AnyPath env0 (JSString (str ''../../../etc/passwd'')) None =
     Inl (Error (str ''Invalid path: path escapes project root''))
   \<and> FilePath env0 (JSString (str ''src/../../x'')) None =
     FilePath env1 (JSString (str ''src/../../x'')) None"
proof -
  let ?s = "str ''../../../etc/passwd''" and ?t = "str ''src/../../x''"
  have r: "resolve (cwd env0) [str ''/home/proj'', ?s] = str ''/etc/passwd''"
    by code_simp
  have h1: "\<not> (\<exists>c\<in>set ?s. c \<in> {60, 62, 58, 34, 124, 63, 42} \<or> c \<le> 31)"
    by (simp add: str_def)
  have h2: "startsWith ?s (str ''./'') \<or> startsWith ?s (str ''../'')"
    by (simp add: startsWith_def str_def)
  have h3: "\<not> startsWith (resolve (cwd env0) [str ''/home/proj'', ?s]) (str ''/home/proj'')"
    unfolding r by (simp add: startsWith_def str_def)
  have h4: "\<not> startsWith ?t (str ''./'') \<and> \<not> startsWith ?t (str ''../'')"
    by (simp add: startsWith_def str_def)
  from escape_check [of ?s env0 "str ''/home/proj''" None] h1 h2 h3 root_env0
  have "FilePath env0 (JSString ?s) None =
          Inl (Error (orDefault None (str ''Invalid file path'') @ escapesSuffix))
      \<and> FolderPath env0 (JSString ?s) None =
          Inl (Error (orDefault None (str ''Invalid folder path'') @ escapesSuffix))
      \<and> AnyPath env0 (JSString ?s) None =
          Inl (Error (orDefault None (str ''Invalid path'') @ escapesSuffix))"
    by blast
  moreover from escape_check [of ?t env0 "str ''/home/proj''" None env1] h4
  have "FilePath env0 (JSString ?t) None = FilePath env1 (JSString ?t) None"
    by blast
  ultimately show ?thesis
    by (simp add: orDefault_def escapesSuffix_def str_def)
qed

text \<open>
  Claim C1, as stated, fails: the absolute path \<open>/absolute/path/file.txt\<close> is accepted
  by all three validators although it lies outside the subtree of the project root
  \<open>/home/proj\<close>.
\<close>

theorem accepted_inside_root_counterexample:
  "FilePath env0 (JSString (str ''/absolute/path/file.txt'')) None =
     Inr (JSString (str ''/absolute/path/file.txt''))
   \<and> FolderPath env0 (JSString (str ''/absolute/path/file.txt'')) None =
     Inr (JSString (str ''/absolute/path/file.txt''))
   \<and> AnyPath env0 (JSString (str ''/absolute/path/file.txt'')) None =
     Inr (JSString (str ''/absolute/path/file.txt''))
   \<and> getProjectRoot env0 = Inr (str ''/home/proj'')
   \<and> \<not> withinSubtree (cwd env0) (str ''/home/proj'') (str ''/absolute/path/file.txt'')"
proof -
  let ?s = "str ''/absolute/path/file.txt''"
  have t: "trim ?s \<noteq> []" by (simp add: trim_Nil_iff str_def isWhiteSpace_def)
  have i: "\<not> invalidChars_test ?s" by (simp add: invalidChars_test_iff str_def)
  have h3: "\<not> startsWith ?s (str ''./'')" by (simp add: startsWith_def str_def)
  have h4: "\<not> startsWith ?s (str ''../'')" by (simp add: startsWith_def str_def)
  have w: "\<not> withinSubtree (cwd env0) (str ''/home/proj'') ?s"
    by code_simp
  have v: "validatePath env0 (JSString ?s) d = Inr ()" for d
    by (rule validatePath_plain [OF t i h3 h4])
  have f: "FilePath env0 (JSString ?s) None = Inr (JSString ?s)"
    by (simp add: FilePath_def v)
  have g: "FolderPath env0 (JSString ?s) None = Inr (JSString ?s)"
    by (simp add: FolderPath_def v)
  have a: "AnyPath env0 (JSString ?s) None = Inr (JSString ?s)"
    by (simp add: AnyPath_def v)
  from f g a root_env0 w show ?thesis by blast
qed

text \<open>
  Claim C1, amended. When the working directory is an absolute path and a candidate that
  begins with \<open>./\<close> or \<open>../\<close> is accepted by one of the three validators, the project
  root was found, the value returned is the candidate, and the candidate resolved against
  the project root lies inside the subtree of the project root, provided the resolved
  path does not continue the last segment of the root path. Nothing is said of an
  accepted candidate whose resolved path does.
\<close>

theorem accepted_relative_within_subtree:
  assumes "isAbsolute (cwd e)"
    and "startsWith s (str ''./'') \<or> startsWith s (str ''../'')"
    and "FilePath e (JSString s) m = Inr v \<or> FolderPath e (JSString s) m = Inr v
         \<or> AnyPath e (JSString s) m = Inr v"
  shows "\<exists>root. getProjectRoot e = Inr root \<and> v = JSString s
           \<and> (\<not> continuesLastSegment root (resolve (cwd e) [root, s])
                \<longrightarrow> withinSubtree (cwd e) root (resolve (cwd e) [root, s]))"
proof -
  have accepted: "\<exists>d. validatePath e (JSString s) d = Inr () \<and> v = JSString s"
    using assms(3)
  proof (elim disjE)
    assume "FilePath e (JSString s) m = Inr v"
    then have "validatePath e (JSString s) (orDefault m (str ''Invalid file path'')) = Inr ()
        \<and> v = JSString s"
      by (cases "validatePath e (JSString s) (orDefault m (str ''Invalid file path''))")
        (simp_all add: FilePath_def)
    then show ?thesis by blast
  next
    assume "FolderPath e (JSString s) m = Inr v"
    then have "validatePath e (JSString s) (orDefault m (str ''Invalid folder path'')) = Inr ()
        \<and> v = JSString s"
      by (cases "validatePath e (JSString s) (orDefault m (str ''Invalid folder path''))")
        (simp_all add: FolderPath_def)
    then show ?thesis by blast
  next
    assume "AnyPath e (JSString s) m = Inr v"
    then have "validatePath e (JSString s) (orDefault m (str ''Invalid path'')) = Inr ()
        \<and> v = JSString s"
      by (cases "validatePath e (JSString s) (orDefault m (str ''Invalid path''))")
        (simp_all add: AnyPath_def)
    then show ?thesis by blast
  qed
  then obtain d where v: "validatePath e (JSString s) d = Inr ()" and vs: "v = JSString s"
    by blast
  have ok: "\<not> invalidChars_test s"
    using v relative_prefix_trim [OF assms(2)]
    by (auto simp: validatePath_def split: if_splits)
  from v obtain root where root: "getProjectRoot e = Inr root"
    and pre: "startsWith (resolve (cwd e) [root, s]) root"
    unfolding validatePath_relative [OF ok assms(2)]
    by (auto split: sum.splits if_splits)
  from root assms(1) have absr: "isAbsolute root"
    by (auto simp: getProjectRoot_def findProjectRoot_def intro: findProjectRootLoop_absolute)
  let ?B = "normalizeSegments False (root @ SLASH # s @ [SLASH])"
  have R: "resolve (cwd e) [root, s] = SLASH # joinWith SLASH ?B"
    by (rule resolve_root_relative [OF absr relative_candidate [OF assms(2)]])
  have "withinSubtree (cwd e) root (resolve (cwd e) [root, s])"
    if "\<not> continuesLastSegment root (resolve (cwd e) [root, s])"
    using withinSubtree_continuation [OF absr R normalizeSegments_clean]
      startsWith_split [OF pre that] by blast
  with root vs show ?thesis by blast
qed

theorem accepted_relative_within_subtree_witness:
  "isAbsolute (cwd env0)
   \<and> FilePath env0 (JSString (str ''./src/index.ts'')) None = Inr (JSString (str ''./src/index.ts''))
   \<and> resolve (cwd env0) [str ''/home/proj'', str ''./src/index.ts''] = str ''/home/proj/src/index.ts''
   \<and> withinSubtree (cwd env0) (str ''/home/proj'') (str ''/home/proj/src/index.ts'')"
proof -
  let ?s = "str ''./src/index.ts''"
  have r: "resolve (cwd env0) [str ''/home/proj'', ?s] = str ''/home/proj/src/index.ts''"
    by code_simp
  have h0: "isAbsolute (cwd env0)" by (simp add: env0_def isAbsolute_def str_def)
  have h1: "startsWith ?s (str ''./'') \<or> startsWith ?s (str ''../'')"
    by (simp add: startsWith_def str_def)
  have ok: "\<not> invalidChars_test ?s" by (simp add: invalidChars_test_iff str_def)
  have f: "FilePath env0 (JSString ?s) None = Inr (JSString ?s)"
    by (simp add: FilePath_def validatePath_relative [OF ok h1] root_env0 r)
      (simp add: startsWith_def str_def)
  then have h2: "FilePath env0 (JSString ?s) None = Inr (JSString ?s)
      \<or> FolderPath env0 (JSString ?s) None = Inr (JSString ?s)
      \<or> AnyPath env0 (JSString ?s) None = Inr (JSString ?s)" by blast
  have nc: "\<not> continuesLastSegment (str ''/home/proj'') (str ''/home/proj/src/index.ts'')"
    by (simp add: continuesLastSegment_def str_def)
  from accepted_relative_within_subtree [OF h0 h1 h2] root_env0 r nc
  have "withinSubtree (cwd env0) (str ''/home/proj'') (str ''/home/proj/src/index.ts'')"
    by auto
  with h0 f r show ?thesis by blast
qed

text \<open>
  The proviso is needed: \<open>../proj2/secret\<close> resolves to \<open>/home/proj2/secret\<close>, which
  continues the last segment of \<open>/home/proj\<close>, passes the prefix test of
  \<open>validatePath\<close> and is outside the subtree.
\<close>

lemma sibling_of_root_accepted:
  "FilePath env0 (JSString (str ''../proj2/secret'')) None = Inr (JSString (str ''../proj2/secret''))
   \<and> continuesLastSegment (str ''/home/proj'')
       (resolve (cwd env0) [str ''/home/proj'', str ''../proj2/secret''])
   \<and> \<not> withinSubtree (cwd env0) (str ''/home/proj'')
       (resolve (cwd env0) [str ''/home/proj'', str ''../proj2/secret''])"
proof -
  let ?s = "str ''../proj2/secret''"
  have r: "resolve (cwd env0) [str ''/home/proj'', ?s] = str ''/home/proj2/secret''"
    by code_simp
  have h1: "startsWith ?s (str ''./'') \<or> startsWith ?s (str ''../'')"
    by (simp add: startsWith_def str_def)
  have ok: "\<not> invalidChars_test ?s" by (simp add: invalidChars_test_iff str_def)
  have f: "FilePath env0 (JSString ?s) None = Inr (JSString ?s)"
    by (simp add: FilePath_def validatePath_relative [OF ok h1] root_env0 r)
      (simp add: startsWith_def str_def)
  have c: "continuesLastSegment (str ''/home/proj'') (str ''/home/proj2/secret'')"
    by (simp add: continuesLastSegment_def startsWith_def str_def)
  have w: "\<not> withinSubtree (cwd env0) (str ''/home/proj'') (str ''/home/proj2/secret'')"
    by code_simp
  from f c w show ?thesis by (simp add: r)
qed

section \<open>Claims about the static path checker\<close>

lemma getTypeNameFromAST_last: "getTypeNameFromAST n = last (segments n)"
  by (cases n) simp_all

lemma isPathType_marker: "isPathType t = markerAnnotation (Some t)"
  by (cases t) (simp_all add: isPathType_def markerAnnotation_def markerNames_def Let_def
      getTypeNameFromAST_last)

lemma checkVariableDeclaration_no_marker:
  "\<not> markerAnnotation declType \<Longrightarrow> checkVariableDeclaration e l sf declType i = None"
  by (cases declType; cases i)
    (simp_all add: checkVariableDeclaration_def isPathType_marker markerAnnotation_def)

lemma visit_no_marker: "noMarkerDeclaration n \<Longrightarrow> visit e l sf n = []"
proof (induction n)
  case (VariableDeclaration declType initializer children)
  then have "concat (map (visit e l sf) children) = []"
    by (simp add: list_all_iff)
  with VariableDeclaration.prems show ?case
    by (simp add: checkVariableDeclaration_no_marker split: option.split)
next
  case (OtherNode children)
  then show ?case by (simp add: list_all_iff)
qed

text \<open>
  Claim C7. The name that \<open>getTypeNameFromAST\<close> gives for an annotation is the
  rightmost segment of its entity name. A variable declaration whose annotation is not a
  marker annotation (no annotation, a keyword type such as \<open>string\<close>, or a type
  reference whose rightmost segment is not one of the three marker names) gives no
  diagnostic, whatever its literal and whatever exists on the file system; a file in
  which no variable declaration has a marker annotation gives the empty list.
\<close>

theorem unmarked_declarations_silent:
  "getTypeNameFromAST typeName = last (segments typeName)
   \<and> (\<not> markerAnnotation declType \<longrightarrow> checkVariableDeclaration e l sf declType i = None)
   \<and> (list_all noMarkerDeclaration (statements sf) \<longrightarrow> checkFile e l sf = [])"
  by (simp add: getTypeNameFromAST_last checkVariableDeclaration_no_marker checkFile_def
      visit_no_marker list_all_iff)

theorem unmarked_declarations_silent_witness:
  "\<not> existsSync env0 (resolve (cwd env0) [projectRoot linter0, str ''src/some-file.ts''])
   \<and> getTypeNameFromAST (QualifiedName (EntityIdentifier (Identifier (str ''linted-paths'')))
                                         (Identifier (str ''FilePathStr''))) = str ''FilePathStr''
   \<and> checkVariableDeclaration env0 linter0 plainStringFile (Some OtherTypeNode)
        (StringLiteral (str ''src/some-file.ts'') 36 18) = None
   \<and> checkFile env0 linter0 plainStringFile = []"
proof -
  have h0: "\<not> existsSync env0 (resolve (cwd env0) [projectRoot linter0, str ''src/some-file.ts''])"
    by code_simp
  have h1: "\<not> markerAnnotation (Some OtherTypeNode)" by (simp add: markerAnnotation_def)
  have h2: "list_all noMarkerDeclaration (statements plainStringFile)"
    by (simp add: plainStringFile_def markerAnnotation_def markerNames_def str_def)
  show ?thesis
    using unmarked_declarations_silent
      [of "QualifiedName (EntityIdentifier (Identifier (str ''linted-paths'')))
             (Identifier (str ''FilePathStr''))"
          "Some OtherTypeNode" env0 linter0 plainStringFile
          "StringLiteral (str ''src/some-file.ts'') 36 18"] h0 h1 h2
    by simp
qed

lemma commonPrefix_le: "commonPrefix xs ys \<le> length xs"
  by (induction xs ys rule: commonPrefix.induct) auto

lemma commonPrefix_full: "commonPrefix xs ys = length xs \<Longrightarrow> prefix xs ys"
  by (induction xs ys rule: commonPrefix.induct) (auto split: if_splits)

lemma joinWith_Cons_startsWith: "startsWith (joinWith d (w # ws)) w"
  by (cases ws) (simp_all add: startsWith_def)

lemma relative_outside:
  assumes "\<not> withinSubtree wd root p"
  shows "startsWith (relative wd root p) (str ''..'')"
proof -
  let ?fs = "normalizeSegments False (resolve wd [root])"
  let ?ts = "normalizeSegments False (resolve wd [p])"
  from assms have np: "\<not> prefix ?fs ?ts" by (simp add: withinSubtree_def)
  then have ne: "resolve wd [root] \<noteq> resolve wd [p]" by auto
  then have ne': "root \<noteq> p" by auto
  from np commonPrefix_le [of ?fs ?ts] commonPrefix_full [of ?fs ?ts]
  have "commonPrefix ?fs ?ts < length ?fs" by (cases "commonPrefix ?fs ?ts = length ?fs") auto
  then obtain k where k: "length ?fs - commonPrefix ?fs ?ts = Suc k"
    by (cases "length ?fs - commonPrefix ?fs ?ts") auto
  have "relative wd root p =
      joinWith SLASH ([DOT, DOT] # (replicate k [DOT, DOT] @ drop (commonPrefix ?fs ?ts) ?ts))"
    using ne ne' k by (simp add: relative_def Let_def)
  then show ?thesis
    using joinWith_Cons_startsWith [of SLASH "[DOT, DOT]"] by (simp add: str_def)
qed

text \<open>
  Claim C2, as stated, fails: for the empty literal a diagnostic is emitted although the
  literal has no forbidden character, resolves to the project root itself, which is
  inside the project root, and exists.
\<close>

theorem marked_literal_diagnostic_counterexample:
  "markerAnnotation (Some filePathStrType)
   \<and> \<not> invalidChars_test []
   \<and> resolve (cwd env0) [projectRoot linter0, []] = str ''/home/proj''
   \<and> withinSubtree (cwd env0) (projectRoot linter0) (str ''/home/proj'')
   \<and> relative (cwd env0) (projectRoot linter0) (str ''/home/proj'') = []
   \<and> existsSync env0 (str ''/home/proj'')
   \<and> checkVariableDeclaration env0 linter0 markedFile (Some filePathStrType) (StringLiteral [] 40 2) =
       Some \<lparr>category = Error', code = 1001, messageText = invalidPathMessage [],
             file' = markedFile, start = 40, length' = 2\<rparr>"
  by code_simp

text \<open>
  Claim C2, amended. For a variable declaration with a marker annotation and a
  string-literal initializer, the checker emits one diagnostic, with code 1001, the
  message \<open>Invalid path: "<value>" does not exist or is not accessible\<close>, the configured
  category, the source file and the span of the literal, when the literal is empty, has
  a forbidden character (whatever exists on the file system), resolves outside the
  subtree of the project root, or does not exist. It emits none when the literal is
  non-empty, has no forbidden character, exists, and its path relative to the project
  root neither starts with \<open>..\<close> nor is absolute. The declaration contributes that
  diagnostic once, or nothing, to the list of the file.
\<close>

theorem marked_literal_diagnostic:
  assumes "markerAnnotation (Some t)"
  shows "let full = (if isAbsolute v then v else resolve (cwd e) [projectRoot l, v]);
             rel = relative (cwd e) (projectRoot l) full;
             d = \<lparr>category = getSeverityCategory l, code = 1001,
                  messageText = invalidPathMessage v, file' = sf, start = st, length' = w\<rparr>
         in (v = [] \<or> (\<exists>c\<in>set v. c \<in> {60, 62, 58, 34, 124, 63, 42} \<or> c \<le> 31)
               \<or> \<not> withinSubtree (cwd e) (projectRoot l) full \<or> \<not> existsSync e full
             \<longrightarrow> checkVariableDeclaration e l sf (Some t) (StringLiteral v st w) = Some d)
          \<and> (v \<noteq> [] \<and> \<not> (\<exists>c\<in>set v. c \<in> {60, 62, 58, 34, 124, 63, 42} \<or> c \<le> 31)
               \<and> \<not> startsWith rel (str ''..'') \<and> \<not> isAbsolute rel \<and> existsSync e full
             \<longrightarrow> checkVariableDeclaration e l sf (Some t) (StringLiteral v st w) = None)
          \<and> visit e l sf (VariableDeclaration (Some t) (Some (StringLiteral v st w)) []) =
              (if isValidPath e l v then [] else [d])"
proof -
  let ?full = "if isAbsolute v then v else resolve (cwd e) [projectRoot l, v]"
  let ?rel = "relative (cwd e) (projectRoot l) ?full"
  let ?d = "\<lparr>category = getSeverityCategory l, code = 1001,
             messageText = invalidPathMessage v, file' = sf, start = st, length' = w\<rparr>"
  from assms have pt: "isPathType t" by (simp add: isPathType_marker)
  then have chk: "checkVariableDeclaration e l sf (Some t) (StringLiteral v st w) =
      (if isValidPath e l v then None else Some ?d)"
    by (simp add: checkVariableDeclaration_def)
  have valid: "isValidPath e l v \<longleftrightarrow>
      v \<noteq> [] \<and> \<not> invalidChars_test v \<and> \<not> startsWith ?rel (str ''..'') \<and> \<not> isAbsolute ?rel
      \<and> existsSync e ?full"
    by (simp add: isValidPath_def Let_def)
  have a: "v = [] \<or> (\<exists>c\<in>set v. c \<in> {60, 62, 58, 34, 124, 63, 42} \<or> c \<le> 31)
        \<or> \<not> withinSubtree (cwd e) (projectRoot l) ?full \<or> \<not> existsSync e ?full
      \<Longrightarrow> \<not> isValidPath e l v"
    unfolding valid invalidChars_test_iff
    using relative_outside [of "cwd e" "projectRoot l" ?full] by blast
  have b: "v \<noteq> [] \<and> \<not> (\<exists>c\<in>set v. c \<in> {60, 62, 58, 34, 124, 63, 42} \<or> c \<le> 31)
        \<and> \<not> startsWith ?rel (str ''..'') \<and> \<not> isAbsolute ?rel \<and> existsSync e ?full
      \<Longrightarrow> isValidPath e l v"
    unfolding valid invalidChars_test_iff by blast
  have c: "visit e l sf (VariableDeclaration (Some t) (Some (StringLiteral v st w)) []) =
      (if isValidPath e l v then [] else [?d])"
    by (simp add: chk)
  from a b c show ?thesis
    unfolding Let_def chk by (intro conjI impI) simp_all
qed

theorem marked_literal_diagnostic_witness:
  "checkVariableDeclaration env0 linter0 markedFile (Some filePathStrType)
     (StringLiteral (str ''src/file<bad>.txt'') 40 19) =
     Some \<lparr>category = Error', code = 1001,
           messageText = invalidPathMessage (str ''src/file<bad>.txt''),
           file' = markedFile, start = 40, length' = 19\<rparr>
   \<and> checkVariableDeclaration env0 linter0 markedFile (Some filePathStrType)
       (StringLiteral (str ''package.json'') 100 14) = None"
proof -
  have m: "markerAnnotation (Some filePathStrType)"
    by (simp add: markerAnnotation_def filePathStrType_def markerNames_def)
  have sev: "getSeverityCategory linter0 = Error'"
    by (simp add: getSeverityCategory_def linter0_def)
  have bad: "\<exists>c\<in>set (str ''src/file<bad>.txt''). c \<in> {60, 62, 58, 34, 124, 63, 42} \<or> c \<le> 31"
    by (simp add: str_def)
  have one: "checkVariableDeclaration env0 linter0 markedFile (Some filePathStrType)
     (StringLiteral (str ''src/file<bad>.txt'') 40 19) =
     Some \<lparr>category = Error', code = 1001,
           messageText = invalidPathMessage (str ''src/file<bad>.txt''),
           file' = markedFile, start = 40, length' = 19\<rparr>"
    using marked_literal_diagnostic
      [OF m, where v = "str ''src/file<bad>.txt''" and e = env0 and l = linter0
         and sf = markedFile and st = 40 and w = 19] bad sev
    unfolding Let_def by simp
  have ne: "str ''package.json'' \<noteq> []" by (simp add: str_def)
  have good: "\<not> (\<exists>c\<in>set (str ''package.json''). c \<in> {60, 62, 58, 34, 124, 63, 42} \<or> c \<le> 31)"
    by (simp add: str_def)
  have ab: "\<not> isAbsolute (str ''package.json'')" by (simp add: isAbsolute_def str_def)
  have full: "resolve (cwd env0) [projectRoot linter0, str ''package.json''] =
      str ''/home/proj/package.json''"
    by code_simp
  have rel: "relative (cwd env0) (projectRoot linter0) (str ''/home/proj/package.json'') =
      str ''package.json''"
    by code_simp
  have sw: "\<not> startsWith (str ''package.json'') (str ''..'')"
    by (simp add: startsWith_def str_def)
  have ex: "existsSync env0 (str ''/home/proj/package.json'')" by (simp add: env0_def)
  have none: "checkVariableDeclaration env0 linter0 markedFile (Some filePathStrType)
       (StringLiteral (str ''package.json'') 100 14) = None"
    using marked_literal_diagnostic
      [OF m, where v = "str ''package.json''" and e = env0 and l = linter0
         and sf = markedFile and st = 100 and w = 14] ne good
    unfolding Let_def by (simp add: ab full rel sw ex)
  from one none show ?thesis by blast
qed

lemma isValidPath_options: "isValidPath e (l\<lparr>options := opts\<rparr>) v = isValidPath e l v"
  by (simp add: isValidPath_def)

lemma checkVariableDeclaration_options:
  "checkVariableDeclaration e (l\<lparr>options := opts\<rparr>) sf declType i =
     map_option (category_update (\<lambda>_. getSeverityCategory (l\<lparr>options := opts\<rparr>)))
       (checkVariableDeclaration e l sf declType i)"
  by (cases i; cases declType) (simp_all add: checkVariableDeclaration_def isValidPath_options)

lemma visit_options:
  "visit e (l\<lparr>options := opts\<rparr>) sf n =
     map (category_update (\<lambda>_. getSeverityCategory (l\<lparr>options := opts\<rparr>))) (visit e l sf n)"
proof (induction n)
  case (VariableDeclaration declType initializer children)
  then have "concat (map (visit e (l\<lparr>options := opts\<rparr>) sf) children) =
      map (category_update (\<lambda>_. getSeverityCategory (l\<lparr>options := opts\<rparr>)))
        (concat (map (visit e l sf) children))"
    by (simp add: map_concat cong: map_cong)
  then show ?case
    by (cases initializer; cases "checkVariableDeclaration e l sf declType (the initializer)")
      (simp_all add: checkVariableDeclaration_options)
next
  case (OtherNode children)
  then show ?case by (simp add: map_concat cong: map_cong)
qed

lemma checkFile_options:
  "checkFile e (l\<lparr>options := opts\<rparr>) sf =
     map (category_update (\<lambda>_. getSeverityCategory (l\<lparr>options := opts\<rparr>))) (checkFile e l sf)"
proof -
  have "visit e (l\<lparr>options := opts\<rparr>) sf =
      map (category_update (\<lambda>_. getSeverityCategory (l\<lparr>options := opts\<rparr>))) \<circ> visit e l sf"
    by (rule ext) (simp add: visit_options)
  then show ?thesis by (simp add: checkFile_def map_concat)
qed

lemma run_options:
  "run e (l\<lparr>options := opts\<rparr>) =
     map (category_update (\<lambda>_. getSeverityCategory (l\<lparr>options := opts\<rparr>))) (run e l)"
proof -
  have "checkFile e (l\<lparr>options := opts\<rparr>) =
      map (category_update (\<lambda>_. getSeverityCategory (l\<lparr>options := opts\<rparr>))) \<circ> checkFile e l"
    by (rule ext) (simp add: checkFile_options)
  then show ?thesis by (simp add: run_def map_concat)
qed

lemma checkFile_linter0: "checkFile env0 linter0 markedFile = [nonexistentDiagnostic Error']"
  by code_simp

text \<open>
  Claim C8. The linter built with another severity is the linter built with
  \<open>error\<close> with its options replaced. The diagnostics of a file, and of the whole
  program, under another severity are those under the first one with the category field
  replaced and nothing else changed: the same number, in the same order, with the same
  codes, messages, files and spans. The category is \<open>Warning\<close> for \<open>warn\<close> and
  \<open>Suggestion\<close> for \<open>off\<close>, which suppresses nothing.
\<close>

theorem severity_changes_only_category:
  "newPathLinter e prog \<lparr>severity = Some s\<rparr> =
     (case newPathLinter e prog \<lparr>severity = Some SeverityError\<rparr> of
        Inl err \<Rightarrow> Inl err
      | Inr l0 \<Rightarrow> Inr (l0\<lparr>options := \<lparr>severity = Some s\<rparr>\<rparr>))
   \<and> checkFile e (l\<lparr>options := \<lparr>severity = Some s\<rparr>\<rparr>) sf =
       map (category_update (\<lambda>_. getSeverityCategory (l\<lparr>options := \<lparr>severity = Some s\<rparr>\<rparr>)))
         (checkFile e l sf)
   \<and> run e (l\<lparr>options := \<lparr>severity = Some s\<rparr>\<rparr>) =
       map (category_update (\<lambda>_. getSeverityCategory (l\<lparr>options := \<lparr>severity = Some s\<rparr>\<rparr>)))
         (run e l)
   \<and> getSeverityCategory (l\<lparr>options := \<lparr>severity = Some s\<rparr>\<rparr>) =
       (case s of SeverityError \<Rightarrow> Error' | SeverityWarn \<Rightarrow> Warning | SeverityOff \<Rightarrow> Suggestion)"
proof -
  have "newPathLinter e prog \<lparr>severity = Some s\<rparr> =
     (case newPathLinter e prog \<lparr>severity = Some SeverityError\<rparr> of
        Inl err \<Rightarrow> Inl err
      | Inr l0 \<Rightarrow> Inr (l0\<lparr>options := \<lparr>severity = Some s\<rparr>\<rparr>))"
    by (cases "findProjectRoot e None") (simp_all add: newPathLinter_def)
  moreover have "getSeverityCategory (l\<lparr>options := \<lparr>severity = Some s\<rparr>\<rparr>) =
       (case s of SeverityError \<Rightarrow> Error' | SeverityWarn \<Rightarrow> Warning | SeverityOff \<Rightarrow> Suggestion)"
    by (cases s) (simp_all add: getSeverityCategory_def)
  ultimately show ?thesis
    by (simp add: checkFile_options run_options)
qed

theorem severity_changes_only_category_witness:
  "checkFile env0 linter0 markedFile = [nonexistentDiagnostic Error']
   \<and> checkFile env0 (linter0\<lparr>options := \<lparr>severity = Some SeverityWarn\<rparr>\<rparr>) markedFile =
       [nonexistentDiagnostic Warning]
   \<and> checkFile env0 (linter0\<lparr>options := \<lparr>severity = Some SeverityOff\<rparr>\<rparr>) markedFile =
       [nonexistentDiagnostic Suggestion]"
  using severity_changes_only_category
      [where e = env0 and l = linter0 and s = SeverityWarn and sf = markedFile]
    severity_changes_only_category
      [where e = env0 and l = linter0 and s = SeverityOff and sf = markedFile]
  by (simp add: checkFile_linter0 nonexistentDiagnostic_def)

section \<open>Claim about the language-service plugin\<close>

lemma newPathLinter_env0:
  "newPathLinter env0 program0 \<lparr>severity = None\<rparr> = Inr linter0"
  using root_env0 by (simp add: newPathLinter_def getProjectRoot_def linter0_def)

text \<open>
  Claim C9. When \<open>create\<close> returns a proxy, reading \<open>getSemanticDiagnostics\<close> from
  it gives a function that returns, for every file name, the diagnostics of the wrapped
  service followed by the diagnostics of the path checker for the source file of that
  name (none when the program has no such file); reading any other property gives what
  the wrapped service gives.
\<close>

theorem plugin_appends_path_diagnostics:
  assumes "create e opts ls = Inr proxy"
  shows "\<exists>prog l f.
           getProgram ls = Some prog \<and> newPathLinter e prog opts = Inr l
         \<and> proxy (str ''getSemanticDiagnostics'') = SemanticDiagnosticsFn f
         \<and> (\<forall>name. f name =
               Inr (getSemanticDiagnostics ls name
                    @ (case getSourceFile prog name of
                         None \<Rightarrow> []
                       | Some sourceFile \<Rightarrow> checkFile e l sourceFile)))
         \<and> (\<forall>prop. prop \<noteq> str ''getSemanticDiagnostics'' \<longrightarrow> proxy prop = reflectGet ls prop)"
proof -
  from assms obtain prog where p: "getProgram ls = Some prog"
    by (cases "getProgram ls") (simp_all add: create_def)
  with assms obtain l where l: "newPathLinter e prog opts = Inr l"
    and proxy: "proxy = proxyGet e l ls"
    by (cases "newPathLinter e prog opts") (auto simp: create_def)
  have "interceptedDiagnostics e l ls name =
          Inr (getSemanticDiagnostics ls name
               @ (case getSourceFile prog name of
                    None \<Rightarrow> []
                  | Some sourceFile \<Rightarrow> checkFile e l sourceFile))" for name
    by (cases "getSourceFile prog name") (simp_all add: interceptedDiagnostics_def p)
  moreover have "proxy (str ''getSemanticDiagnostics'') =
      SemanticDiagnosticsFn (interceptedDiagnostics e l ls)"
    by (simp add: proxy proxyGet_def)
  moreover have "\<forall>prop. prop \<noteq> str ''getSemanticDiagnostics'' \<longrightarrow> proxy prop = reflectGet ls prop"
    by (simp add: proxy proxyGet_def)
  ultimately show ?thesis using p l by blast
qed

theorem plugin_appends_path_diagnostics_witness:
  "create env0 \<lparr>severity = None\<rparr> service0 = Inr (proxyGet env0 linter0 service0)
   \<and> proxyGet env0 linter0 service0 (str ''getSemanticDiagnostics'') =
       SemanticDiagnosticsFn (interceptedDiagnostics env0 linter0 service0)
   \<and> interceptedDiagnostics env0 linter0 service0 (str ''marked.ts'') =
       Inr [hostDiagnostic, nonexistentDiagnostic Error']
   \<and> interceptedDiagnostics env0 linter0 service0 (str ''absent.ts'') = Inr []
   \<and> proxyGet env0 linter0 service0 (str ''getProgram'') = ProgramFn (Some program0)"
proof -
  have c: "create env0 \<lparr>severity = None\<rparr> service0 = Inr (proxyGet env0 linter0 service0)"
    by (simp add: create_def service0_def newPathLinter_env0)
  have g: "getProgram service0 = Some program0" by (simp add: service0_def)
  have n: "str ''getProgram'' \<noteq> str ''getSemanticDiagnostics''" by (simp add: str_def)
  have s1: "getSourceFile program0 (str ''marked.ts'') = Some markedFile"
    by (simp add: program0_def)
  have s2: "getSourceFile program0 (str ''absent.ts'') = None"
    by (simp add: program0_def str_def)
  have d1: "getSemanticDiagnostics service0 (str ''marked.ts'') = [hostDiagnostic]"
    by (simp add: service0_def)
  have d2: "getSemanticDiagnostics service0 (str ''absent.ts'') = []"
    by (simp add: service0_def str_def)
  from plugin_appends_path_diagnostics [OF c] obtain prog l f where
      gp: "getProgram service0 = Some prog"
      and nl: "newPathLinter env0 prog \<lparr>severity = None\<rparr> = Inr l"
      and rest:
      "proxyGet env0 linter0 service0 (str ''getSemanticDiagnostics'') = SemanticDiagnosticsFn f"
      "\<forall>name. f name =
         Inr (getSemanticDiagnostics service0 name
              @ (case getSourceFile prog name of
                   None \<Rightarrow> []
                 | Some sourceFile \<Rightarrow> checkFile env0 l sourceFile))"
      "\<forall>prop. prop \<noteq> str ''getSemanticDiagnostics'' \<longrightarrow>
         proxyGet env0 linter0 service0 prop = reflectGet service0 prop"
    by blast
  from gp g have pr: "prog = program0" by simp
  with nl have "l = linter0" by (simp add: newPathLinter_env0)
  with pr rest have "proxyGet env0 linter0 service0 (str ''getSemanticDiagnostics'') = SemanticDiagnosticsFn f
      \<and> f (str ''marked.ts'') = Inr [hostDiagnostic, nonexistentDiagnostic Error']
      \<and> f (str ''absent.ts'') = Inr []
      \<and> proxyGet env0 linter0 service0 (str ''getProgram'') = reflectGet service0 (str ''getProgram'')"
    using n by (simp add: s1 s2 d1 d2 checkFile_linter0)
  moreover have i: "proxyGet env0 linter0 service0 (str ''getSemanticDiagnostics'') =
      SemanticDiagnosticsFn (interceptedDiagnostics env0 linter0 service0)"
    by (simp add: proxyGet_def)
  ultimately have "f = interceptedDiagnostics env0 linter0 service0" by simp
  with c i \<open>proxyGet env0 linter0 service0 (str ''getSemanticDiagnostics'') = SemanticDiagnosticsFn f
      \<and> f (str ''marked.ts'') = Inr [hostDiagnostic, nonexistentDiagnostic Error']
      \<and> f (str ''absent.ts'') = Inr []
      \<and> proxyGet env0 linter0 service0 (str ''getProgram'') = reflectGet service0 (str ''getProgram'')\<close>
  show ?thesis by (simp add: reflectGet_def n g)
qed

end
